theory Spec2Isabelle
  imports Main
begin

section \<open>The cross-lingual language-model task (fairseq/tasks/cross\_lingual\_lm.py)\<close>

text \<open>
  A shallow embedding of \<^verbatim>\<open>CrossLingualLMTask\<close>: the construction of the
  language-to-id mapping (\<^verbatim>\<open>_lang_to_id\<close>), the constructor and
  \<^verbatim>\<open>load_dataset\<close>. Python strings are lists of characters (code points below 256),
  Python dictionaries are association lists in insertion order, the mutable task instance
  is a record passed in and returned, and a raised exception is the \<open>Inl\<close> branch of
  the result, returned together with the instance as it was mutated up to the raise.
\<close>

subsection \<open>Python built-ins used by the task\<close>

text \<open>\<^verbatim>\<open>str.isspace\<close> on one character, for the code points below 256.\<close>

definition isspace :: "char \<Rightarrow> bool" where
  "isspace c =
     (let n = (of_char c :: nat)
      in (9 \<le> n \<and> n \<le> 13) \<or> (28 \<le> n \<and> n \<le> 31) \<or> n = 32 \<or> n = 133 \<or> n = 160)"

text \<open>\<^verbatim>\<open>s.strip()\<close>: drop the whitespace at both ends.\<close>

definition str_strip :: "string \<Rightarrow> string" where
  "str_strip s = rev (dropWhile isspace (rev (dropWhile isspace s)))"

text \<open>
  \<^verbatim>\<open>s.split(sep)\<close> for a one-character separator: \<open>cur\<close> is the piece being
  read. The result has one more piece than \<open>s\<close> has separators, so it is never empty.
\<close>

fun split_from :: "char \<Rightarrow> string \<Rightarrow> string \<Rightarrow> string list" where
  "split_from sep cur [] = [cur]"
| "split_from sep cur (c # cs) =
     (if c = sep then cur # split_from sep [] cs else split_from sep (cur @ [c]) cs)"

definition str_split :: "string \<Rightarrow> char \<Rightarrow> string list" where
  "str_split s sep = split_from sep [] s"

text \<open>\<^verbatim>\<open>'{}'.format(n)\<close> for a non-negative integer: its decimal digits.\<close>

definition digit_char :: "nat \<Rightarrow> char" where
  "digit_char d = char_of (48 + d)"

fun str_of_nat :: "nat \<Rightarrow> string" where
  "str_of_nat n =
     (if n < 10 then [digit_char n] else str_of_nat (n div 10) @ [digit_char (n mod 10)])"

declare str_of_nat.simps [simp del]

text \<open>\<^verbatim>\<open>os.path.join(a, b)\<close> (posixpath) for two components.\<close>

definition path_join :: "string \<Rightarrow> string \<Rightarrow> string" where
  "path_join a b =
     (if b \<noteq> [] \<and> hd b = CHR ''/'' then b
      else if a = [] \<or> last a = CHR ''/'' then a @ b
      else a @ ''/'' @ b)"

text \<open>
  A Python \<^verbatim>\<open>dict\<close> (and \<^verbatim>\<open>OrderedDict\<close>): the items in insertion order,
  which is the order \<^verbatim>\<open>keys()\<close> iterates in. Assigning to a key that is present
  replaces its value where it stands; a new key goes to the end. Reading a key that is
  absent raises \<^verbatim>\<open>KeyError\<close>.
\<close>

type_synonym ('k, 'v) dict = "('k \<times> 'v) list"

datatype error = FileNotFoundError string | KeyError string

fun dict_setitem :: "('k, 'v) dict \<Rightarrow> 'k \<Rightarrow> 'v \<Rightarrow> ('k, 'v) dict" where
  "dict_setitem [] k v = [(k, v)]"
| "dict_setitem ((k', v') # d) k v =
     (if k' = k then (k, v) # d else (k', v') # dict_setitem d k v)"

definition dict_keys :: "('k, 'v) dict \<Rightarrow> 'k list" where
  "dict_keys d = map fst d"

definition dict_getitem :: "(string, 'v) dict \<Rightarrow> string \<Rightarrow> error + 'v" where
  "dict_getitem d k = (case map_of d k of None \<Rightarrow> Inl (KeyError k) | Some v \<Rightarrow> Inr v)"

subsection \<open>The collaborators: vocabulary, datasets, file system\<close>

text \<open>
  Modelled from the spec: the vocabulary class (\<^verbatim>\<open>MaskedLMDictionary\<close>) is not part
  of this file. It is an ordered collection of token strings with reserved indices for
  the padding, end-of-sequence and mask tokens; \<^verbatim>\<open>pad()\<close>, \<^verbatim>\<open>eos()\<close> and
  \<^verbatim>\<open>mask()\<close> return these indices.
\<close>

record dictionary =
  symbols :: "string list"
  pad_index :: nat
  eos_index :: nat
  mask_index :: nat

text \<open>
  Modelled from the spec: the dataset classes are not part of this file either; the task
  only configures and composes them. A dataset object is the record of the arguments its
  constructor was called with, in the source's keyword names.
  The three shard classes take the path and, for the raw-text one, the vocabulary, for
  the binary ones \<^verbatim>\<open>fix_lua_indexing\<close>. What a constructor does with the files
  is the collaborator's business: here it returns.
\<close>

datatype indexed_dataset =
    IndexedRawTextDataset string dictionary
  | IndexedDataset string bool
  | IndexedCachedDataset string bool

record token_block_dataset =
  tb_dataset :: indexed_dataset
  tb_sizes :: "nat list"
  tb_block_size :: int
  tb_pad :: nat
  tb_eos :: nat

record masked_lm_dataset =
  mlm_dataset :: token_block_dataset
  mlm_sizes :: "nat list"
  mlm_vocab :: dictionary
  mlm_pad_idx :: nat
  mlm_mask_idx :: nat
  mlm_classif_token_idx :: nat
  mlm_sep_token_idx :: nat
  mlm_shuffle :: bool
  mlm_has_pairs :: bool
  mlm_segment_id :: nat
  mlm_seed :: int

record multi_corpus_sampled_dataset =
  mc_datasets :: "(string, masked_lm_dataset) dict"
  mc_default_key :: "string option"

text \<open>
  Modelled from the spec: what the task asks of the outside at the moment of a call,
  taken as parameters of a load: whether a shard of either
  format exists at a path (\<^verbatim>\<open>IndexedRawTextDataset.exists\<close>,
  \<^verbatim>\<open>IndexedDataset.exists\<close>), the \<^verbatim>\<open>sizes\<close> attribute of a loaded shard and of
  a block dataset, and \<^verbatim>\<open>len\<close> of a merged dataset.
\<close>

record env =
  raw_text_exists :: "string \<Rightarrow> bool"
  indexed_exists :: "string \<Rightarrow> bool"
  ds_sizes :: "indexed_dataset \<Rightarrow> nat list"
  block_sizes :: "token_block_dataset \<Rightarrow> nat list"
  merged_len :: "multi_corpus_sampled_dataset \<Rightarrow> nat"

subsection \<open>The task instance\<close>

text \<open>
  The parsed command line (\<^verbatim>\<open>add_args\<close>). \<^verbatim>\<open>shuffle\<close> is read with
  \<^verbatim>\<open>getattr(args, 'shuffle', False)\<close>, so the attribute may be absent: \<open>None\<close>.
\<close>

record args =
  data :: string
  tokens_per_sample :: int
  monolingual_langs :: string
  raw_text :: bool
  lazy_load :: bool
  shuffle :: "bool option"
  args_seed :: int
  args_distributed_world_size :: int

text \<open>
  The instance. \<open>args\<close> and \<open>datasets\<close> are the fields of the base class
  \<^verbatim>\<open>FairseqTask\<close>; \<open>stdout\<close> is the list of lines printed so far, threaded with
  the instance.
\<close>

record task =
  args :: args
  datasets :: "(string, multi_corpus_sampled_dataset) dict"
  dictionary :: dictionary
  seed :: int
  distributed_world_size :: int
  langs2id :: "(string, nat) dict"
  default_key :: "string option"
  stdout :: "string list"

text \<open>
  \<^verbatim>\<open>_lang_to_id\<close>. \<open>langs_of\<close> is its local list \<^verbatim>\<open>langs\<close>, the stripped
  pieces of the argument; the loop over \<^verbatim>\<open>enumerate(langs)\<close> is a left fold whose
  step is the assignment \<^verbatim>\<open>lang2id[lang] = id\<close>.
\<close>

definition langs_of :: "string \<Rightarrow> string list" where
  "langs_of languages = map str_strip (str_split languages CHR '','')"

fun assign :: "(string, nat) dict \<Rightarrow> nat \<times> string \<Rightarrow> (string, nat) dict" where
  "assign lang2id (id', lang) = dict_setitem lang2id lang id'"

definition lang_to_id :: "string \<Rightarrow> (string, nat) dict" where
  "lang_to_id languages =
     (let lang2id = [];
          langs = langs_of languages
      in foldl assign lang2id (enumerate 0 langs))"

text \<open>
  Modelled from the spec: the base-class constructor, which is not part of this file,
  stores \<open>args\<close> and creates the empty per-split registry \<open>datasets\<close>. The other
  fields are set as \<^verbatim>\<open>__init__\<close> sets them.
\<close>

definition init :: "args \<Rightarrow> dictionary \<Rightarrow> task" where
  "init a d =
     \<lparr> args = a, datasets = [], dictionary = d, seed = args_seed a,
       distributed_world_size = args_distributed_world_size a,
       langs2id = lang_to_id (monolingual_langs a), default_key = None, stdout = [] \<rparr>"

subsection \<open>Loading a split\<close>

text \<open>
  The part of the loop body of \<^verbatim>\<open>load_dataset\<close> after the default key is recorded:
  resolve the shard of one language, wrap it in the block dataset and in the masked-LM
  dataset. \<open>language_split\<close> and \<open>shard_path\<close> are the body's locals
  \<^verbatim>\<open>language_split\<close> and \<^verbatim>\<open>path\<close>, \<open>not_found\<close> is the exception it raises:
  \<^verbatim>\<open>FileNotFoundError('Dataset not found: {} ({})'.format(language_split, self.args.data))\<close>.
\<close>

definition language_split :: "string \<Rightarrow> string \<Rightarrow> string" where
  "language_split split lang = split @ ''.'' @ lang"

definition shard_path :: "task \<Rightarrow> string \<Rightarrow> string \<Rightarrow> string" where
  "shard_path t split lang = path_join (data (args t)) (language_split split lang)"

definition not_found :: "task \<Rightarrow> string \<Rightarrow> string \<Rightarrow> error" where
  "not_found t split lang =
     FileNotFoundError
       (''Dataset not found: '' @ language_split split lang @ '' ('' @ data (args t) @ '')'')"

definition resolve_shard :: "env \<Rightarrow> task \<Rightarrow> string \<Rightarrow> string \<Rightarrow> error + indexed_dataset" where
  "resolve_shard e t split lang =
     (let path = shard_path t split lang
      in if raw_text (args t) \<and> raw_text_exists e path then
           Inr (IndexedRawTextDataset path (dictionary t))
         else if \<not> raw_text (args t) \<and> indexed_exists e path then
           (if lazy_load (args t) then Inr (IndexedDataset path True)
            else Inr (IndexedCachedDataset path True))
         else Inl (not_found t split lang))"

definition load_lang :: "env \<Rightarrow> task \<Rightarrow> string \<Rightarrow> string \<Rightarrow> error + masked_lm_dataset" where
  "load_lang e t split lang =
     (case resolve_shard e t split lang of
        Inl err \<Rightarrow> Inl err
      | Inr ds \<Rightarrow>
          (let block_dataset =
                 \<lparr> tb_dataset = ds, tb_sizes = ds_sizes e ds,
                   tb_block_size = tokens_per_sample (args t) - 1,
                   tb_pad = pad_index (dictionary t), tb_eos = eos_index (dictionary t) \<rparr>
           in case dict_getitem (langs2id t) lang of
                Inl err \<Rightarrow> Inl err
              | Inr segment_id \<Rightarrow>
                  Inr \<lparr> mlm_dataset = block_dataset,
                        mlm_sizes = block_sizes e block_dataset,
                        mlm_vocab = dictionary t,
                        mlm_pad_idx = pad_index (dictionary t),
                        mlm_mask_idx = mask_index (dictionary t),
                        mlm_classif_token_idx = eos_index (dictionary t),
                        mlm_sep_token_idx = eos_index (dictionary t),
                        mlm_shuffle = (case shuffle (args t) of None \<Rightarrow> False | Some b \<Rightarrow> b),
                        mlm_has_pairs = False,
                        mlm_segment_id = segment_id,
                        mlm_seed = seed t \<rparr>))"

text \<open>
  The loop \<^verbatim>\<open>for lang in self.langs2id.keys()\<close>: \<open>dataset_map\<close> is the ordered
  dictionary built so far. A raise leaves the loop with the instance as mutated so far.
\<close>

fun load_langs ::
  "env \<Rightarrow> string \<Rightarrow> string list \<Rightarrow> (string, masked_lm_dataset) dict \<Rightarrow> task \<Rightarrow>
     (error + (string, masked_lm_dataset) dict) \<times> task" where
  "load_langs e split [] dataset_map t = (Inr dataset_map, t)"
| "load_langs e split (lang # langs) dataset_map t =
     (let t1 = (if default_key t = None then t\<lparr>default_key := Some lang\<rparr> else t)
      in case load_lang e t1 split lang of
           Inl err \<Rightarrow> (Inl err, t1)
         | Inr d \<Rightarrow> load_langs e split langs (dict_setitem dataset_map lang d) t1)"

text \<open>
  \<^verbatim>\<open>load_dataset(self, split, combine=False)\<close>. The result is \<open>Inr ()\<close> for a normal
  return; \<open>combine\<close> is accepted and not used.
\<close>

definition load_dataset :: "env \<Rightarrow> task \<Rightarrow> string \<Rightarrow> bool \<Rightarrow> (error + unit) \<times> task" where
  "load_dataset e t split combine =
     (case load_langs e split (dict_keys (langs2id t)) [] t of
        (Inl err, t1) \<Rightarrow> (Inl err, t1)
      | (Inr dataset_map, t1) \<Rightarrow>
          (let merged = \<lparr> mc_datasets = dataset_map, mc_default_key = default_key t1 \<rparr>;
               t2 = t1\<lparr>datasets := dict_setitem (datasets t1) split merged\<rparr>;
               line = ''| '' @ data (args t2) @ '' '' @ split @ '' ''
                        @ str_of_nat (merged_len e merged) @ '' examples''
           in (Inr (), t2\<lparr>stdout := stdout t2 @ [line]\<rparr>)))"

subsection \<open>The lifetime of an instance\<close>

text \<open>
  Successive calls of \<^verbatim>\<open>load_dataset\<close> on one instance, each with the file system of
  its moment; the caller goes on with the instance after an exception.
\<close>

fun load_all :: "task \<Rightarrow> (env \<times> string \<times> bool) list \<Rightarrow> task" where
  "load_all t [] = t"
| "load_all t ((e, split, combine) # calls) =
     load_all (snd (load_dataset e t split combine)) calls"

text \<open>
  The applicable shard format of a load: the raw-text one in raw-text mode, the binary
  one otherwise. \<open>shard_exists\<close> is the test the two guards of the loop body make.
\<close>

definition shard_exists :: "env \<Rightarrow> task \<Rightarrow> string \<Rightarrow> string \<Rightarrow> bool" where
  "shard_exists e t split lang =
     (if raw_text (args t) then raw_text_exists e (shard_path t split lang)
      else indexed_exists e (shard_path t split lang))"

text \<open>\<^verbatim>\<open>sep.join(pieces)\<close>, to say what \<open>str_split\<close> returns.\<close>

fun join_with :: "char \<Rightarrow> string list \<Rightarrow> string" where
  "join_with sep [] = []"
| "join_with sep [w] = w"
| "join_with sep (w # v # ws) = w @ sep # join_with sep (v # ws)"

subsection \<open>Example inputs\<close>

definition ex_dictionary :: dictionary where
  "ex_dictionary =
     \<lparr> symbols = [''<pad>'', ''</s>'', ''<unk>'', ''<mask>''],
       pad_index = 0, eos_index = 1, mask_index = 3 \<rparr>"

definition ex_args :: args where
  "ex_args =
     \<lparr> data = ''data'', tokens_per_sample = 128, monolingual_langs = ''en, fr'',
       raw_text = False, lazy_load = False, shuffle = None, args_seed = 1,
       args_distributed_world_size = 1 \<rparr>"

text \<open>
  A data directory with binary shards \<^verbatim>\<open>train.en\<close>, \<^verbatim>\<open>train.fr\<close> and
  \<^verbatim>\<open>valid.en\<close>, no \<^verbatim>\<open>valid.fr\<close> and no raw-text shard; and the same directory
  after its shards were removed.
\<close>

definition ex_env :: env where
  "ex_env =
     \<lparr> raw_text_exists = (\<lambda>p. False),
       indexed_exists =
         (\<lambda>p. p = ''data/train.en'' \<or> p = ''data/train.fr'' \<or> p = ''data/valid.en''),
       ds_sizes = (\<lambda>ds. [200, 54]), block_sizes = (\<lambda>b. [127, 127]),
       merged_len = (\<lambda>m. 2 * length (mc_datasets m)) \<rparr>"

definition ex_env_gone :: env where
  "ex_env_gone = ex_env\<lparr>indexed_exists := (\<lambda>p. False)\<rparr>"

definition ex_task :: task where
  "ex_task = init ex_args ex_dictionary"

definition ex_task_raw :: task where
  "ex_task_raw = init (ex_args\<lparr>raw_text := True\<rparr>) ex_dictionary"

definition ex_task_loaded :: task where
  "ex_task_loaded = snd (load_dataset ex_env ex_task ''train'' False)"

section \<open>Properties\<close>

subsection \<open>The built-ins\<close>

lemma split_from_nonempty: "split_from sep cur s \<noteq> []"
  by (induction s arbitrary: cur) auto

lemma str_split_nonempty: "str_split s sep \<noteq> []"
  by (simp add: str_split_def split_from_nonempty)

text \<open>Joining the pieces with the separator gives the string back.\<close>

lemma join_split_from: "join_with sep (split_from sep cur s) = cur @ s"
proof (induction s arbitrary: cur)
  case Nil
  show ?case by simp
next
  case (Cons c cs)
  show ?case
  proof (cases "c = sep")
    case True
    obtain w ws where "split_from sep [] cs = w # ws"
      using split_from_nonempty [of sep "[]" cs] by (cases "split_from sep [] cs") auto
    with True Cons [of "[]"] show ?thesis by simp
  next
    case False
    with Cons [of "cur @ [c]"] show ?thesis by simp
  qed
qed

lemma join_str_split: "join_with sep (str_split s sep) = s"
  by (simp add: str_split_def join_split_from)

text \<open>No piece contains the separator.\<close>

lemma split_from_no_sep:
  "sep \<notin> set cur \<Longrightarrow> \<forall>w\<in>set (split_from sep cur s). sep \<notin> set w"
proof (induction s arbitrary: cur)
  case Nil
  then show ?case by simp
next
  case (Cons c cs)
  show ?case
  proof (cases "c = sep")
    case True
    with Cons.prems Cons.IH [of "[]"] show ?thesis by simp
  next
    case False
    with Cons.prems Cons.IH [of "cur @ [c]"] show ?thesis by simp
  qed
qed

lemma str_split_no_sep: "w \<in> set (str_split s sep) \<Longrightarrow> sep \<notin> set w"
  using split_from_no_sep [of sep "[]" s] by (simp add: str_split_def)

text \<open>
  Stripping removes a run of whitespace at each end and nothing else; what remains
  neither starts nor ends with whitespace.
\<close>

lemma rev_dropWhile_rev: "xs = rev (dropWhile P (rev xs)) @ rev (takeWhile P (rev xs))"
  by (metis rev_append rev_rev_ident takeWhile_dropWhile_id)

lemma str_strip_decompose:
  "\<exists>a b. s = a @ str_strip s @ b \<and> (\<forall>c\<in>set a. isspace c) \<and> (\<forall>c\<in>set b. isspace c)"
proof -
  let ?r = "dropWhile isspace s"
  let ?a = "takeWhile isspace s"
  let ?b = "rev (takeWhile isspace (rev ?r))"
  have r: "?r = str_strip s @ ?b"
    unfolding str_strip_def by (rule rev_dropWhile_rev)
  have "s = ?a @ ?r" by simp
  with r have "s = ?a @ str_strip s @ ?b" by simp
  moreover have "\<forall>c\<in>set ?a. isspace c" by (auto dest: set_takeWhileD)
  moreover have "\<forall>c\<in>set ?b. isspace c" by (auto dest: set_takeWhileD)
  ultimately show ?thesis by blast
qed

lemma str_strip_ends:
  assumes "str_strip s \<noteq> []"
  shows "\<not> isspace (hd (str_strip s)) \<and> \<not> isspace (last (str_strip s))"
proof -
  let ?r = "dropWhile isspace s"
  let ?q = "dropWhile isspace (rev ?r)"
  from assms have q: "?q \<noteq> []" by (simp add: str_strip_def)
  then have "\<not> isspace (hd ?q)" by (rule hd_dropWhile)
  with q have l: "\<not> isspace (last (str_strip s))" by (simp add: str_strip_def last_rev)
  from q have r: "?r \<noteq> []" by (metis dropWhile.simps(1) rev.simps(1))
  then have h: "\<not> isspace (hd ?r)" by (rule hd_dropWhile)
  have "?r = str_strip s @ rev (takeWhile isspace (rev ?r))"
    unfolding str_strip_def by (rule rev_dropWhile_rev)
  with assms have "hd ?r = hd (str_strip s)" by (metis hd_append2)
  with h l show ?thesis by simp
qed

subsection \<open>Dictionaries\<close>

lemma map_of_dict_setitem: "map_of (dict_setitem d k v) = (map_of d)(k \<mapsto> v)"
  by (induction d k v rule: dict_setitem.induct) auto

lemma keys_dict_setitem:
  "map fst (dict_setitem d k v) = (if k \<in> fst ` set d then map fst d else map fst d @ [k])"
  by (induction d k v rule: dict_setitem.induct) auto

lemma set_dict_setitem: "set (dict_setitem d k v) \<subseteq> insert (k, v) (set d)"
  by (induction d k v rule: dict_setitem.induct) auto

lemma dict_setitem_new: "k \<notin> fst ` set d \<Longrightarrow> dict_setitem d k v = d @ [(k, v)]"
  by (induction d k v rule: dict_setitem.induct) auto


lemma dict_setitem_nonempty: "dict_setitem d k v \<noteq> []"
  by (cases d) (auto split: if_splits)

lemma hd_keys_dict_setitem: "d \<noteq> [] \<Longrightarrow> hd (map fst (dict_setitem d k v)) = hd (map fst d)"
  by (cases d) auto

lemma dict_getitem_key:
  "k \<in> set (dict_keys d) \<Longrightarrow> \<exists>v. dict_getitem d k = Inr v"
proof -
  assume "k \<in> set (dict_keys d)"
  then have "k \<in> dom (map_of d)" by (simp add: dict_keys_def dom_map_of_conv_image_fst)
  then obtain v where "map_of d k = Some v" by blast
  then show ?thesis by (simp add: dict_getitem_def)
qed

subsection \<open>The language-to-id mapping\<close>

lemma assign_distinct:
  "distinct (map fst d @ xs) \<Longrightarrow>
     foldl assign d (enumerate n xs) = d @ zip xs [n..<n + length xs]"
proof (induction xs arbitrary: d n)
  case Nil
  show ?case by simp
next
  case (Cons x xs)
  have new: "x \<notin> fst ` set d" using Cons.prems by auto
  have "distinct (map fst (d @ [(x, n)]) @ xs)" using Cons.prems by auto
  from Cons.IH [OF this, of "Suc n"]
  have ih: "foldl assign (d @ [(x, n)]) (enumerate (Suc n) xs) =
              (d @ [(x, n)]) @ zip xs [Suc n..<Suc n + length xs]" .
  have up: "[n..<n + length (x # xs)] = n # [Suc n..<Suc n + length xs]"
    by (subst upt_rec) simp
  have "foldl assign d (enumerate n (x # xs)) =
          foldl assign (d @ [(x, n)]) (enumerate (Suc n) xs)"
    using new by (simp add: dict_setitem_new)
  also note ih
  also have "(d @ [(x, n)]) @ zip xs [Suc n..<Suc n + length xs] =
               d @ zip (x # xs) [n..<n + length (x # xs)]"
    unfolding up by simp
  finally show ?case .
qed

lemma assign_snoc:
  "foldl assign d (enumerate n (xs @ [x])) =
     dict_setitem (foldl assign d (enumerate n xs)) x (n + length xs)"
  by (simp add: enumerate_append_eq)

lemma assign_keys_set:
  "set (map fst (foldl assign d (enumerate n xs))) = fst ` set d \<union> set xs"
  by (induction xs rule: rev_induct)
    (auto simp: assign_snoc keys_dict_setitem simp del: foldl_append)

lemma assign_keys_distinct:
  "distinct (map fst d) \<Longrightarrow> distinct (map fst (foldl assign d (enumerate n xs)))"
  by (induction xs rule: rev_induct)
    (auto simp: assign_snoc keys_dict_setitem simp del: foldl_append)

lemma assign_last_occurrence:
  "i < length xs \<Longrightarrow> \<forall>j. i < j \<and> j < length xs \<longrightarrow> xs ! j \<noteq> xs ! i \<Longrightarrow>
     map_of (foldl assign d (enumerate n xs)) (xs ! i) = Some (n + i)"
proof (induction xs rule: rev_induct)
  case Nil
  then show ?case by simp
next
  case (snoc x xs)
  show ?case
  proof (cases "i = length xs")
    case True
    then show ?thesis by (simp add: assign_snoc map_of_dict_setitem del: foldl_append)
  next
    case False
    with snoc.prems have i: "i < length xs" by simp
    from snoc.prems(2) i have ne: "x \<noteq> xs ! i"
      by (metis length_append_singleton lessI nth_append nth_append_length)
    have later: "\<forall>j. i < j \<and> j < length xs \<longrightarrow> xs ! j \<noteq> xs ! i"
    proof (intro allI impI)
      fix j assume j: "i < j \<and> j < length xs"
      with snoc.prems(2) have "(xs @ [x]) ! j \<noteq> (xs @ [x]) ! i" by simp
      with j i show "xs ! j \<noteq> xs ! i" by (simp add: nth_append)
    qed
    from snoc.IH [OF i later] ne i show ?thesis
      by (simp add: assign_snoc map_of_dict_setitem nth_append del: foldl_append)
  qed
qed

lemma assign_hd_keys:
  "d \<noteq> [] \<Longrightarrow> foldl assign d (enumerate n xs) \<noteq> [] \<and>
     hd (map fst (foldl assign d (enumerate n xs))) = hd (map fst d)"
proof (induction xs rule: rev_induct)
  case Nil
  then show ?case by simp
next
  case (snoc x xs)
  then show ?case
    by (simp add: assign_snoc hd_keys_dict_setitem dict_setitem_nonempty del: foldl_append)
qed

text \<open>
  The mapping is never empty, and its first key, the first language a load iterates, is
  the first stripped piece of the argument.
\<close>

lemma lang_to_id_hd:
  "dict_keys (lang_to_id s) \<noteq> [] \<and>
   hd (dict_keys (lang_to_id s)) = str_strip (hd (str_split s CHR '',''))"
proof -
  obtain w ws where sp: "str_split s CHR '','' = w # ws"
    using str_split_nonempty [of s "CHR '',''"] by (cases "str_split s CHR '',''") auto
  have "[(str_strip w, 0::nat)] \<noteq> []" by simp
  from assign_hd_keys [OF this, of "Suc 0" "map str_strip ws"] sp show ?thesis
    by (simp add: lang_to_id_def langs_of_def dict_keys_def)
qed

lemmas builtin_defs =
  langs_of_def str_split_def str_strip_def isspace_def enumerate_eq_zip dict_keys_def
  dict_getitem_def path_join_def language_split_def shard_path_def not_found_def

text \<open>
  C1. When the stripped pieces of the comma-separated argument are pairwise distinct, the
  mapping built by \<open>lang_to_id\<close> lists them in input order with the ids \<open>0, 1, ..., n - 1\<close>:
  its keys are the stripped pieces from left to right and reading the \<open>i\<close>-th piece gives
  \<open>i\<close>. (The argument need not be non-empty: the empty string has the one piece \<open>''''\<close>.)
\<close>

theorem lang_to_id_assigns_in_order:
  assumes "distinct (langs_of languages)"
  shows "lang_to_id languages = zip (langs_of languages) [0..<length (langs_of languages)] \<and>
     dict_keys (lang_to_id languages) = langs_of languages \<and>
     (\<forall>i<length (langs_of languages).
        dict_getitem (lang_to_id languages) (langs_of languages ! i) = Inr i)"
proof -
  let ?langs = "langs_of languages"
  have eq: "lang_to_id languages = zip ?langs [0..<length ?langs]"
    using assms assign_distinct [of "[]" ?langs 0] by (simp add: lang_to_id_def)
  have keys: "dict_keys (lang_to_id languages) = ?langs"
    by (simp add: eq dict_keys_def)
  have "dict_getitem (lang_to_id languages) (?langs ! i) = Inr i" if "i < length ?langs" for i
    using assign_last_occurrence [of i ?langs "[]" 0] that assms
    by (auto simp: lang_to_id_def dict_getitem_def nth_eq_iff_index_eq)
  with eq keys show ?thesis by blast
qed

theorem lang_to_id_assigns_in_order_witness:
  "distinct (langs_of ''en, fr,de'') \<and>
   lang_to_id ''en, fr,de'' = [(''en'', 0), (''fr'', 1), (''de'', 2)] \<and>
   dict_getitem (lang_to_id ''en, fr,de'') ''de'' = Inr 2"
proof -
  have l: "langs_of ''en, fr,de'' = [''en'', ''fr'', ''de'']"
    by (simp add: builtin_defs)
  have d: "distinct (langs_of ''en, fr,de'')" unfolding l by simp
  from lang_to_id_assigns_in_order [OF d] have
    e: "lang_to_id ''en, fr,de'' =
          zip (langs_of ''en, fr,de'') [0..<length (langs_of ''en, fr,de'')]"
    and g: "\<forall>i<length (langs_of ''en, fr,de'').
        dict_getitem (lang_to_id ''en, fr,de'') (langs_of ''en, fr,de'' ! i) = Inr i"
    by blast+
  from e have m: "lang_to_id ''en, fr,de'' = [(''en'', 0), (''fr'', 1), (''de'', 2)]"
    unfolding l by (simp add: upt_rec)
  from g [THEN spec, of 2] have "dict_getitem (lang_to_id ''en, fr,de'') ''de'' = Inr 2"
    by (simp add: l)
  with d m show ?thesis by simp
qed

text \<open>
  C8. Whatever the argument, the mapping has exactly one entry for each distinct
  stripped piece, and a piece is mapped to the position of its last occurrence in the
  input: reading the \<open>i\<close>-th piece gives \<open>i\<close> whenever no later piece equals it.
\<close>

theorem lang_to_id_duplicates_last_wins:
  "distinct (dict_keys (lang_to_id languages)) \<and>
   set (dict_keys (lang_to_id languages)) = set (langs_of languages) \<and>
   length (lang_to_id languages) = card (set (langs_of languages)) \<and>
   (\<forall>i<length (langs_of languages).
      (\<forall>j. i < j \<and> j < length (langs_of languages) \<longrightarrow>
           langs_of languages ! j \<noteq> langs_of languages ! i) \<longrightarrow>
      dict_getitem (lang_to_id languages) (langs_of languages ! i) = Inr i)"
proof -
  let ?langs = "langs_of languages"
  have d: "distinct (dict_keys (lang_to_id languages))"
    using assign_keys_distinct [of "[]" 0 ?langs] by (simp add: lang_to_id_def dict_keys_def)
  have s: "set (dict_keys (lang_to_id languages)) = set ?langs"
    using assign_keys_set [of "[]" 0 ?langs] by (simp add: lang_to_id_def dict_keys_def)
  have "length (lang_to_id languages) = length (dict_keys (lang_to_id languages))"
    by (simp add: dict_keys_def)
  also have "\<dots> = card (set (dict_keys (lang_to_id languages)))"
    using d by (simp add: distinct_card)
  finally have c: "length (lang_to_id languages) = card (set ?langs)" by (simp add: s)
  have "dict_getitem (lang_to_id languages) (?langs ! i) = Inr i"
    if "i < length ?langs" "\<forall>j. i < j \<and> j < length ?langs \<longrightarrow> ?langs ! j \<noteq> ?langs ! i" for i
    using assign_last_occurrence [OF that, of "[]" 0]
    by (simp add: lang_to_id_def dict_getitem_def)
  with d s c show ?thesis by blast
qed

theorem lang_to_id_duplicates_last_wins_witness:
  "lang_to_id ''en,fr, en'' = [(''en'', 2), (''fr'', 1)] \<and>
   langs_of ''en,fr, en'' ! 2 = ''en'' \<and>
   dict_getitem (lang_to_id ''en,fr, en'') ''en'' = Inr 2"
proof -
  have l: "langs_of ''en,fr, en'' = [''en'', ''fr'', ''en'']"
    by (simp add: builtin_defs)
  have m: "lang_to_id ''en,fr, en'' = [(''en'', 2), (''fr'', 1)]"
    by (simp add: lang_to_id_def l enumerate_eq_zip upt_rec)
  have "2 < length (langs_of ''en,fr, en'')" unfolding l by simp
  moreover have "\<forall>j. 2 < j \<and> j < length (langs_of ''en,fr, en'') \<longrightarrow>
      langs_of ''en,fr, en'' ! j \<noteq> langs_of ''en,fr, en'' ! 2"
    unfolding l by simp
  ultimately have "dict_getitem (lang_to_id ''en,fr, en'') (langs_of ''en,fr, en'' ! 2) = Inr 2"
    using lang_to_id_duplicates_last_wins [of "''en,fr, en''"] by blast
  with l m show ?thesis by simp
qed

subsection \<open>One language of a load\<close>

text \<open>A load reads the configuration, the vocabulary, the seed and the mapping only.\<close>

lemma load_lang_cong:
  "args t' = args t \<Longrightarrow> dictionary t' = dictionary t \<Longrightarrow> seed t' = seed t \<Longrightarrow>
   langs2id t' = langs2id t \<Longrightarrow> load_lang e t' split lang = load_lang e t split lang"
  unfolding load_lang_def resolve_shard_def shard_path_def not_found_def by (simp only:)

lemma load_lang_default_key [simp]:
  "load_lang e (t\<lparr>default_key := k\<rparr>) split lang = load_lang e t split lang"
  by (rule load_lang_cong) simp_all

lemma load_lang_missing:
  "\<not> shard_exists e t split lang \<Longrightarrow> load_lang e t split lang = Inl (not_found t split lang)"
  by (simp add: load_lang_def resolve_shard_def shard_exists_def split: if_splits)

lemma load_lang_present:
  assumes "lang \<in> set (dict_keys (langs2id t))" and "shard_exists e t split lang"
  shows "\<exists>d. load_lang e t split lang = Inr d \<and>
    tb_dataset (mlm_dataset d) =
      (if raw_text (args t) then IndexedRawTextDataset (shard_path t split lang) (dictionary t)
       else if lazy_load (args t) then IndexedDataset (shard_path t split lang) True
       else IndexedCachedDataset (shard_path t split lang) True)"
proof -
  from dict_getitem_key [OF assms(1)] obtain v where "dict_getitem (langs2id t) lang = Inr v" ..
  with assms(2) show ?thesis
    by (simp add: load_lang_def resolve_shard_def shard_exists_def Let_def split: if_splits)
qed

lemma load_lang_Inl:
  assumes "lang \<in> set (dict_keys (langs2id t))" and "load_lang e t split lang = Inl err"
  shows "\<not> shard_exists e t split lang \<and> err = not_found t split lang"
proof (cases "shard_exists e t split lang")
  case True
  from load_lang_present [OF assms(1) True] assms(2) show ?thesis by auto
next
  case False
  with load_lang_missing [OF False] assms(2) show ?thesis by simp
qed

lemma load_lang_Inr:
  assumes "load_lang e t split lang = Inr d"
  shows "shard_exists e t split lang"
    and "tb_block_size (mlm_dataset d) = tokens_per_sample (args t) - 1"
    and "tb_pad (mlm_dataset d) = pad_index (dictionary t)"
    and "tb_eos (mlm_dataset d) = eos_index (dictionary t)"
    and "dict_getitem (langs2id t) lang = Inr (mlm_segment_id d)"
    and "mlm_shuffle d = (case shuffle (args t) of None \<Rightarrow> False | Some b \<Rightarrow> b)"
  using assms
  by (auto simp: load_lang_def resolve_shard_def shard_exists_def Let_def
      split: if_splits sum.splits)

subsection \<open>The loop over the languages\<close>

text \<open>The loop changes the default key only, and only when it was unset.\<close>

lemma load_langs_state:
  "snd (load_langs e split ls dm t) =
     (if default_key t = None \<and> ls \<noteq> [] then t\<lparr>default_key := Some (hd ls)\<rparr> else t)"
proof (induction ls arbitrary: dm t)
  case Nil
  show ?case by simp
next
  case (Cons lang langs)
  show ?case
  proof (cases "default_key t")
    case None
    then show ?thesis by (simp add: Cons.IH Let_def split: sum.splits)
  next
    case (Some k)
    then show ?thesis by (simp add: Cons.IH Let_def split: sum.splits)
  qed
qed

lemma fst_load_langs_default_key [simp]:
  "fst (load_langs e split ls dm (t\<lparr>default_key := k\<rparr>)) = fst (load_langs e split ls dm t)"
proof (induction ls arbitrary: dm t k)
  case Nil
  show ?case by simp
next
  case (Cons lang langs)
  show ?case by (simp add: Cons.IH Let_def split: sum.splits)
qed

lemma fst_load_langs_Nil: "fst (load_langs e split [] dm t) = Inr dm"
  by simp

lemma fst_load_langs_Cons:
  "fst (load_langs e split (lang # langs) dm t) =
     (case load_lang e t split lang of
        Inl err \<Rightarrow> Inl err
      | Inr d \<Rightarrow> fst (load_langs e split langs (dict_setitem dm lang d) t))"
  by (simp add: Let_def split: sum.splits)

declare load_langs.simps [simp del]


text \<open>The loop raises exactly at the first language without a shard of the applicable format.\<close>

lemma load_langs_Inl:
  assumes "set ls \<subseteq> set (dict_keys (langs2id t))"
    and "fst (load_langs e split ls dm t) = Inl err"
  shows "\<exists>pre lang post. ls = pre @ lang # post \<and> (\<forall>l\<in>set pre. shard_exists e t split l) \<and>
           \<not> shard_exists e t split lang \<and> err = not_found t split lang"
  using assms
proof (induction ls arbitrary: dm)
  case Nil
  then show ?case by (simp add: fst_load_langs_Nil)
next
  case (Cons l ls)
  show ?case
  proof (cases "load_lang e t split l")
    case (Inl err')
    with Cons.prems have "\<not> shard_exists e t split l \<and> err = not_found t split l"
      using load_lang_Inl [of l t e split err'] by (simp add: fst_load_langs_Cons)
    then have "l # ls = [] @ l # ls \<and> (\<forall>x\<in>set []. shard_exists e t split x) \<and>
        \<not> shard_exists e t split l \<and> err = not_found t split l" by simp
    then show ?thesis by blast
  next
    case (Inr d)
    with Cons.prems have "fst (load_langs e split ls (dict_setitem dm l d) t) = Inl err"
      by (simp add: fst_load_langs_Cons)
    with Cons.IH [of "dict_setitem dm l d"] Cons.prems(1)
    obtain pre lang post where p: "ls = pre @ lang # post"
      "\<forall>x\<in>set pre. shard_exists e t split x" "\<not> shard_exists e t split lang"
      "err = not_found t split lang" by auto
    from Inr have "shard_exists e t split l" by (rule load_lang_Inr(1))
    with p have "l # ls = (l # pre) @ lang # post \<and>
        (\<forall>x\<in>set (l # pre). shard_exists e t split x) \<and>
        \<not> shard_exists e t split lang \<and> err = not_found t split lang" by simp
    then show ?thesis by blast
  qed
qed

lemma load_langs_Inr:
  assumes "fst (load_langs e split ls dm t) = Inr dm'"
  shows "(\<forall>l\<in>set ls. shard_exists e t split l) \<and>
         set (map fst dm') = set (map fst dm) \<union> set ls \<and>
         (\<forall>(lang, d)\<in>set dm'. (lang, d) \<in> set dm \<or>
            (lang \<in> set ls \<and> load_lang e t split lang = Inr d))"
  using assms
proof (induction ls arbitrary: dm)
  case Nil
  then show ?case by (auto simp: fst_load_langs_Nil)
next
  case (Cons l ls)
  show ?case
  proof (cases "load_lang e t split l")
    case (Inl err)
    with Cons.prems show ?thesis by (simp add: fst_load_langs_Cons)
  next
    case (Inr d)
    with Cons.prems have r: "fst (load_langs e split ls (dict_setitem dm l d) t) = Inr dm'"
      by (simp add: fst_load_langs_Cons)
    note ih = Cons.IH [OF r]
    from Inr have ex: "shard_exists e t split l" by (rule load_lang_Inr(1))
    have keys: "set (map fst (dict_setitem dm l d)) = insert l (set (map fst dm))"
      by (auto simp: keys_dict_setitem)
    have sub: "set (dict_setitem dm l d) \<subseteq> insert (l, d) (set dm)"
      by (rule set_dict_setitem)
    from ih ex have 1: "\<forall>x\<in>set (l # ls). shard_exists e t split x" by simp
    from ih keys have 2: "set (map fst dm') = set (map fst dm) \<union> set (l # ls)" by auto
    have 3: "\<forall>(lang, d')\<in>set dm'. (lang, d') \<in> set dm \<or>
            (lang \<in> set (l # ls) \<and> load_lang e t split lang = Inr d')"
    proof -
      have "(lang, d') \<in> set dm \<or> (lang \<in> set (l # ls) \<and> load_lang e t split lang = Inr d')"
        if m: "(lang, d') \<in> set dm'" for lang d'
      proof (cases "(lang, d') \<in> set dm")
        case True
        then show ?thesis by simp
      next
        case n: False
        from ih m have "(lang, d') \<in> set (dict_setitem dm l d) \<or>
            (lang \<in> set ls \<and> load_lang e t split lang = Inr d')" by auto
        then show ?thesis
        proof
          assume "(lang, d') \<in> set (dict_setitem dm l d)"
          with sub n have "lang = l \<and> d' = d" by auto
          with Inr show ?thesis by simp
        next
          assume "lang \<in> set ls \<and> load_lang e t split lang = Inr d'"
          then show ?thesis by simp
        qed
      qed
      then show ?thesis by auto
    qed
    from 1 2 3 show ?thesis by blast
  qed
qed

lemma load_langs_total:
  assumes "set ls \<subseteq> set (dict_keys (langs2id t))" and "\<forall>l\<in>set ls. shard_exists e t split l"
  shows "\<exists>dm'. fst (load_langs e split ls dm t) = Inr dm'"
proof (cases "fst (load_langs e split ls dm t)")
  case (Inl err)
  from load_langs_Inl [OF assms(1) Inl] assms(2) show ?thesis by auto
next
  case (Inr dm')
  then show ?thesis by blast
qed

subsection \<open>The whole load\<close>

text \<open>
  \<open>load_dataset\<close> in closed form: the instance after the loop is the one before it with
  the default key set if it was unset; a raise returns that instance, a normal return
  stores the merged dataset and prints the line.
\<close>

lemma load_dataset_unfold:
  "load_dataset e t split combine =
     (let keys = dict_keys (langs2id t);
          t1 = (if default_key t = None \<and> keys \<noteq> [] then t\<lparr>default_key := Some (hd keys)\<rparr>
                else t)
      in case fst (load_langs e split keys [] t) of
           Inl err \<Rightarrow> (Inl err, t1)
         | Inr dataset_map \<Rightarrow>
             (let merged = \<lparr> mc_datasets = dataset_map, mc_default_key = default_key t1 \<rparr>
              in (Inr (),
                  t1\<lparr>datasets := dict_setitem (datasets t) split merged,
                     stdout := stdout t @
                       [''| '' @ data (args t) @ '' '' @ split @ '' ''
                          @ str_of_nat (merged_len e merged) @ '' examples'']\<rparr>)))"
proof -
  obtain r t1 where l: "load_langs e split (dict_keys (langs2id t)) [] t = (r, t1)"
    by (cases "load_langs e split (dict_keys (langs2id t)) [] t")
  from load_langs_state [of e split "dict_keys (langs2id t)" "[]" t] l
  have t1: "t1 = (if default_key t = None \<and> dict_keys (langs2id t) \<noteq> []
                  then t\<lparr>default_key := Some (hd (dict_keys (langs2id t)))\<rparr> else t)"
    by simp
  show ?thesis
    by (cases r) (auto simp: load_dataset_def l t1 Let_def)
qed

lemma load_dataset_Inl:
  assumes "load_dataset e t split combine = (Inl err, t')"
  shows "fst (load_langs e split (dict_keys (langs2id t)) [] t) = Inl err"
    and "t' = (if default_key t = None \<and> dict_keys (langs2id t) \<noteq> []
               then t\<lparr>default_key := Some (hd (dict_keys (langs2id t)))\<rparr> else t)"
  using assms by (auto simp: load_dataset_unfold Let_def split: sum.splits)

lemma load_dataset_Inr:
  assumes "load_dataset e t split combine = (Inr u, t')"
  shows "\<exists>dm. fst (load_langs e split (dict_keys (langs2id t)) [] t) = Inr dm \<and>
     dict_getitem (datasets t') split =
       Inr \<lparr> mc_datasets = dm, mc_default_key = default_key t' \<rparr> \<and>
     datasets t' =
       dict_setitem (datasets t) split \<lparr> mc_datasets = dm, mc_default_key = default_key t' \<rparr>"
  using assms
  by (auto simp: load_dataset_unfold Let_def dict_getitem_def map_of_dict_setitem
      split: sum.splits)

text \<open>
  What a load that returns has registered: one dataset for each language of the mapping,
  each the result of the loop body for its language.
\<close>

lemma load_dataset_registers:
  assumes "load_dataset e t split combine = (Inr u, t')"
  shows "\<exists>m. dict_getitem (datasets t') split = Inr m \<and>
     mc_default_key m = default_key t' \<and>
     set (dict_keys (mc_datasets m)) = set (dict_keys (langs2id t)) \<and>
     (\<forall>(lang, d)\<in>set (mc_datasets m). load_lang e t split lang = Inr d)"
proof -
  from load_dataset_Inr [OF assms] obtain dm where
    dm: "fst (load_langs e split (dict_keys (langs2id t)) [] t) = Inr dm" and
    g: "dict_getitem (datasets t') split =
          Inr \<lparr> mc_datasets = dm, mc_default_key = default_key t' \<rparr>"
    by blast
  from load_langs_Inr [OF dm] have
    "set (dict_keys dm) = set (dict_keys (langs2id t))"
    "\<forall>(lang, d)\<in>set dm. load_lang e t split lang = Inr d"
    by (auto simp: dict_keys_def)
  with g show ?thesis by simp
qed

text \<open>A load raises exactly when some language of the mapping has no applicable shard.\<close>

lemma load_dataset_fails_iff:
  "(\<exists>err. fst (load_dataset e t split combine) = Inl err) \<longleftrightarrow>
   (\<exists>lang\<in>set (dict_keys (langs2id t)). \<not> shard_exists e t split lang)"
proof
  assume "\<exists>err. fst (load_dataset e t split combine) = Inl err"
  then obtain err where "fst (load_dataset e t split combine) = Inl err" ..
  then have "load_dataset e t split combine = (Inl err, snd (load_dataset e t split combine))"
    by (simp add: prod_eq_iff)
  from load_dataset_Inl(1) [OF this]
  have "fst (load_langs e split (dict_keys (langs2id t)) [] t) = Inl err" .
  from load_langs_Inl [OF subset_refl this]
  show "\<exists>lang\<in>set (dict_keys (langs2id t)). \<not> shard_exists e t split lang" by auto
next
  assume miss: "\<exists>lang\<in>set (dict_keys (langs2id t)). \<not> shard_exists e t split lang"
  show "\<exists>err. fst (load_dataset e t split combine) = Inl err"
  proof (cases "fst (load_dataset e t split combine)")
    case (Inl err)
    then show ?thesis by blast
  next
    case (Inr u)
    then have "load_dataset e t split combine = (Inr u, snd (load_dataset e t split combine))"
      by (simp add: prod_eq_iff)
    from load_dataset_Inr [OF this] obtain dm where
      "fst (load_langs e split (dict_keys (langs2id t)) [] t) = Inr dm" by blast
    from load_langs_Inr [OF this] miss show ?thesis by blast
  qed
qed

lemmas example_defs =
  load_langs.simps ex_task_def ex_task_raw_def ex_args_def ex_dictionary_def ex_env_def ex_env_gone_def
  init_def lang_to_id_def load_dataset_def load_lang_def resolve_shard_def shard_exists_def
  builtin_defs

lemma ex_load_train: "fst (load_dataset ex_env ex_task ''train'' False) = Inr ()"
  by (simp add: example_defs)

lemma ex_load_valid:
  "fst (load_dataset ex_env ex_task ''valid'' False) =
     Inl (FileNotFoundError ''Dataset not found: valid.fr (data)'')"
  by (simp add: example_defs)

lemma ex_keys: "dict_keys (langs2id ex_task) = [''en'', ''fr'']"
  by (simp add: example_defs)

lemma ex_keys_raw: "dict_keys (langs2id ex_task_raw) = [''en'', ''fr'']"
  by (simp add: example_defs)

lemma str_of_nat_4: "str_of_nat 4 = ''4''"
  by code_simp


lemma ex_loaded_registry:
  "\<exists>d1 d2. datasets ex_task_loaded =
     [(''train'', \<lparr> mc_datasets = [(''en'', d1), (''fr'', d2)], mc_default_key = Some ''en'' \<rparr>)]"
  by (simp add: ex_task_loaded_def example_defs str_of_nat_4)

subsection \<open>Claims about a load\<close>

text \<open>
  C2 (as amended). For every language of the mapping, with \<open>path\<close> the join of the data
  directory and \<open><split>.<language>\<close>: in raw-text mode with a raw-text shard at \<open>path\<close>
  the shard is loaded as raw text; when raw-text mode is off and a binary shard exists at
  \<open>path\<close> it is loaded lazily if the lazy-load flag is set and cached otherwise; in every
  other case the body raises the error whose message names the split, the language and
  the directory. A whole load raises exactly when some language of the mapping has no
  shard of the applicable format (raw text in raw-text mode, binary otherwise), and what
  it raises is that error for such a language.
\<close>

theorem shard_resolution:
  "(\<forall>lang\<in>set (dict_keys (langs2id t)).
      (raw_text (args t) \<and> raw_text_exists e (shard_path t split lang) \<longrightarrow>
         (\<exists>d. load_lang e t split lang = Inr d \<and>
            tb_dataset (mlm_dataset d) =
              IndexedRawTextDataset (shard_path t split lang) (dictionary t))) \<and>
      (\<not> raw_text (args t) \<and> indexed_exists e (shard_path t split lang) \<and>
       lazy_load (args t) \<longrightarrow>
         (\<exists>d. load_lang e t split lang = Inr d \<and>
            tb_dataset (mlm_dataset d) = IndexedDataset (shard_path t split lang) True)) \<and>
      (\<not> raw_text (args t) \<and> indexed_exists e (shard_path t split lang) \<and>
       \<not> lazy_load (args t) \<longrightarrow>
         (\<exists>d. load_lang e t split lang = Inr d \<and>
            tb_dataset (mlm_dataset d) = IndexedCachedDataset (shard_path t split lang) True)) \<and>
      (\<not> (raw_text (args t) \<and> raw_text_exists e (shard_path t split lang)) \<and>
       \<not> (\<not> raw_text (args t) \<and> indexed_exists e (shard_path t split lang)) \<longrightarrow>
         load_lang e t split lang =
           Inl (FileNotFoundError
                  (''Dataset not found: '' @ split @ ''.'' @ lang @ '' ('' @ data (args t)
                     @ '')'')))) \<and>
   ((\<exists>err. fst (load_dataset e t split combine) = Inl err) \<longleftrightarrow>
    (\<exists>lang\<in>set (dict_keys (langs2id t)). \<not> shard_exists e t split lang)) \<and>
   (\<forall>err. fst (load_dataset e t split combine) = Inl err \<longrightarrow>
      (\<exists>lang\<in>set (dict_keys (langs2id t)). \<not> shard_exists e t split lang \<and>
         err = FileNotFoundError
                 (''Dataset not found: '' @ split @ ''.'' @ lang @ '' ('' @ data (args t)
                    @ '')'')))"
proof (intro conjI ballI allI impI)
  fix lang
  assume k: "lang \<in> set (dict_keys (langs2id t))"
    and a: "raw_text (args t) \<and> raw_text_exists e (shard_path t split lang)"
  then have "shard_exists e t split lang" by (simp add: shard_exists_def)
  from load_lang_present [OF k this] a
  show "\<exists>d. load_lang e t split lang = Inr d \<and>
          tb_dataset (mlm_dataset d) =
            IndexedRawTextDataset (shard_path t split lang) (dictionary t)" by simp
next
  fix lang
  assume k: "lang \<in> set (dict_keys (langs2id t))"
    and a: "\<not> raw_text (args t) \<and> indexed_exists e (shard_path t split lang) \<and>
       lazy_load (args t)"
  then have "shard_exists e t split lang" by (simp add: shard_exists_def)
  from load_lang_present [OF k this] a
  show "\<exists>d. load_lang e t split lang = Inr d \<and>
          tb_dataset (mlm_dataset d) = IndexedDataset (shard_path t split lang) True"
    by simp
next
  fix lang
  assume k: "lang \<in> set (dict_keys (langs2id t))"
    and a: "\<not> raw_text (args t) \<and> indexed_exists e (shard_path t split lang) \<and>
       \<not> lazy_load (args t)"
  then have "shard_exists e t split lang" by (simp add: shard_exists_def)
  from load_lang_present [OF k this] a
  show "\<exists>d. load_lang e t split lang = Inr d \<and>
          tb_dataset (mlm_dataset d) = IndexedCachedDataset (shard_path t split lang) True"
    by simp
next
  fix lang
  assume "\<not> (raw_text (args t) \<and> raw_text_exists e (shard_path t split lang)) \<and>
     \<not> (\<not> raw_text (args t) \<and> indexed_exists e (shard_path t split lang))"
  then have "\<not> shard_exists e t split lang" by (auto simp: shard_exists_def)
  from load_lang_missing [OF this]
  show "load_lang e t split lang =
         Inl (FileNotFoundError
                (''Dataset not found: '' @ split @ ''.'' @ lang @ '' ('' @ data (args t)
                   @ '')''))"
    by (simp add: not_found_def language_split_def)
next
  show "(\<exists>err. fst (load_dataset e t split combine) = Inl err) \<longleftrightarrow>
    (\<exists>lang\<in>set (dict_keys (langs2id t)). \<not> shard_exists e t split lang)"
    by (rule load_dataset_fails_iff)
next
  fix err
  assume "fst (load_dataset e t split combine) = Inl err"
  then have "load_dataset e t split combine = (Inl err, snd (load_dataset e t split combine))"
    by (simp add: prod_eq_iff)
  from load_dataset_Inl(1) [OF this]
  have "fst (load_langs e split (dict_keys (langs2id t)) [] t) = Inl err" .
  from load_langs_Inl [OF subset_refl this]
  obtain pre lang post where "dict_keys (langs2id t) = pre @ lang # post"
    "\<not> shard_exists e t split lang" "err = not_found t split lang" by blast
  then have "lang \<in> set (dict_keys (langs2id t))" "\<not> shard_exists e t split lang"
    "err = not_found t split lang" by simp_all
  then show "\<exists>lang\<in>set (dict_keys (langs2id t)). \<not> shard_exists e t split lang \<and>
         err = FileNotFoundError
                 (''Dataset not found: '' @ split @ ''.'' @ lang @ '' ('' @ data (args t)
                    @ '')'')"
    by (auto simp: not_found_def language_split_def)
qed

theorem shard_resolution_witness:
  "''en'' \<in> set (dict_keys (langs2id ex_task)) \<and> \<not> raw_text (args ex_task) \<and>
   indexed_exists ex_env (shard_path ex_task ''valid'' ''en'') \<and> \<not> lazy_load (args ex_task) \<and>
   (\<exists>d. load_lang ex_env ex_task ''valid'' ''en'' = Inr d \<and>
      tb_dataset (mlm_dataset d) = IndexedCachedDataset ''data/valid.en'' True) \<and>
   ''fr'' \<in> set (dict_keys (langs2id ex_task)) \<and>
   \<not> shard_exists ex_env ex_task ''valid'' ''fr'' \<and>
   load_lang ex_env ex_task ''valid'' ''fr'' =
     Inl (FileNotFoundError ''Dataset not found: valid.fr (data)'') \<and>
   (\<exists>err. fst (load_dataset ex_env ex_task ''valid'' False) = Inl err)"
proof -
  have en: "''en'' \<in> set (dict_keys (langs2id ex_task))"
    and fr: "''fr'' \<in> set (dict_keys (langs2id ex_task))"
    by (simp_all add: ex_keys)
  have p: "shard_path ex_task ''valid'' ''en'' = ''data/valid.en''"
    by (simp add: example_defs)
  have a: "\<not> raw_text (args ex_task) \<and> indexed_exists ex_env (shard_path ex_task ''valid'' ''en'')
      \<and> \<not> lazy_load (args ex_task)"
    by (simp add: example_defs)
  have m: "\<not> shard_exists ex_env ex_task ''valid'' ''fr''"
    by (simp add: example_defs)
  then have b: "\<not> (raw_text (args ex_task) \<and> raw_text_exists ex_env (shard_path ex_task ''valid'' ''fr''))
      \<and> \<not> (\<not> raw_text (args ex_task) \<and> indexed_exists ex_env (shard_path ex_task ''valid'' ''fr''))"
    by (auto simp: shard_exists_def)
  note r = shard_resolution [of ex_task ex_env "''valid''" False]
  from r en a have 1: "\<exists>d. load_lang ex_env ex_task ''valid'' ''en'' = Inr d \<and>
      tb_dataset (mlm_dataset d) = IndexedCachedDataset (shard_path ex_task ''valid'' ''en'') True"
    by blast
  from r fr b have 2: "load_lang ex_env ex_task ''valid'' ''fr'' =
      Inl (FileNotFoundError (''Dataset not found: '' @ ''valid'' @ ''.'' @ ''fr'' @ '' (''
        @ data (args ex_task) @ '')''))"
    by blast
  from r fr m have 3: "\<exists>err. fst (load_dataset ex_env ex_task ''valid'' False) = Inl err"
    by blast
  have d: "data (args ex_task) = ''data''" by (simp add: example_defs)
  from 1 2 3 en fr a m show ?thesis unfolding p d by simp
qed

text \<open>
  C2 as it was written lets the binary shard be loaded whenever the raw-text
  branch is not taken. In raw-text mode with no raw-text shard but a binary shard at the
  path, the code raises instead.
\<close>

theorem shard_resolution_counterexample:
  "raw_text (args ex_task_raw) \<and>
   shard_path ex_task_raw ''train'' ''en'' = ''data/train.en'' \<and>
   \<not> raw_text_exists ex_env ''data/train.en'' \<and>
   indexed_exists ex_env ''data/train.en'' \<and>
   load_lang ex_env ex_task_raw ''train'' ''en'' =
     Inl (FileNotFoundError ''Dataset not found: train.en (data)'') \<and>
   fst (load_dataset ex_env ex_task_raw ''train'' False) =
     Inl (FileNotFoundError ''Dataset not found: train.en (data)'')"
  by (simp add: example_defs)

text \<open>
  C3. A load that raises leaves the per-split registry as it was: nothing is stored
  under the split name (nor under any other), and nothing is printed.
\<close>

theorem failed_load_keeps_registry:
  assumes "load_dataset e t split combine = (Inl err, t')"
  shows "datasets t' = datasets t \<and>
         dict_getitem (datasets t') split = dict_getitem (datasets t) split \<and>
         stdout t' = stdout t"
proof -
  from load_dataset_Inl(2) [OF assms] have "datasets t' = datasets t" "stdout t' = stdout t"
    by (simp_all split: if_splits)
  then show ?thesis by simp
qed

theorem failed_load_keeps_registry_witness:
  "fst (load_dataset ex_env ex_task ''valid'' False) =
     Inl (FileNotFoundError ''Dataset not found: valid.fr (data)'') \<and>
   datasets (snd (load_dataset ex_env ex_task ''valid'' False)) = [] \<and>
   dict_getitem (datasets (snd (load_dataset ex_env ex_task ''valid'' False))) ''valid'' =
     Inl (KeyError ''valid'')"
proof -
  let ?r = "load_dataset ex_env ex_task ''valid'' False"
  have h: "?r = (Inl (FileNotFoundError ''Dataset not found: valid.fr (data)''), snd ?r)"
    using ex_load_valid by (simp add: prod_eq_iff)
  have "datasets ex_task = []" by (simp add: ex_task_def init_def)
  with failed_load_keeps_registry [OF h] ex_load_valid show ?thesis
    by (simp add: dict_getitem_def)
qed

text \<open>
  C6. Whenever the loop body builds the dataset of a language, its block dataset has
  block size \<open>tokens_per_sample - 1\<close> and the vocabulary's padding and end-of-sequence
  indices as \<open>pad\<close> and \<open>eos\<close>; so has every dataset of the merged dataset that a
  returning load registers, and there is one for each language of the mapping.
\<close>

theorem block_size_one_less:
  "(load_lang e t split lang = Inr d \<longrightarrow>
      tb_block_size (mlm_dataset d) = tokens_per_sample (args t) - 1 \<and>
      tb_pad (mlm_dataset d) = pad_index (dictionary t) \<and>
      tb_eos (mlm_dataset d) = eos_index (dictionary t)) \<and>
   (load_dataset e t split combine = (Inr u, t') \<longrightarrow>
      (\<exists>m. dict_getitem (datasets t') split = Inr m \<and>
         set (dict_keys (mc_datasets m)) = set (dict_keys (langs2id t)) \<and>
         (\<forall>(lang, d)\<in>set (mc_datasets m).
            tb_block_size (mlm_dataset d) = tokens_per_sample (args t) - 1 \<and>
            tb_pad (mlm_dataset d) = pad_index (dictionary t) \<and>
            tb_eos (mlm_dataset d) = eos_index (dictionary t))))"
proof (rule conjI; rule impI)
  assume "load_lang e t split lang = Inr d"
  from load_lang_Inr(2-4) [OF this]
  show "tb_block_size (mlm_dataset d) = tokens_per_sample (args t) - 1 \<and>
      tb_pad (mlm_dataset d) = pad_index (dictionary t) \<and>
      tb_eos (mlm_dataset d) = eos_index (dictionary t)" by simp
next
  assume "load_dataset e t split combine = (Inr u, t')"
  from load_dataset_registers [OF this] obtain m where
    m: "dict_getitem (datasets t') split = Inr m"
      "set (dict_keys (mc_datasets m)) = set (dict_keys (langs2id t))"
      "\<forall>(lang, d)\<in>set (mc_datasets m). load_lang e t split lang = Inr d"
    by blast
  from m(3) have "\<forall>(lang, d)\<in>set (mc_datasets m).
            tb_block_size (mlm_dataset d) = tokens_per_sample (args t) - 1 \<and>
            tb_pad (mlm_dataset d) = pad_index (dictionary t) \<and>
            tb_eos (mlm_dataset d) = eos_index (dictionary t)"
    by (auto dest: load_lang_Inr(2-4))
  with m(1,2) show "\<exists>m. dict_getitem (datasets t') split = Inr m \<and>
         set (dict_keys (mc_datasets m)) = set (dict_keys (langs2id t)) \<and>
         (\<forall>(lang, d)\<in>set (mc_datasets m).
            tb_block_size (mlm_dataset d) = tokens_per_sample (args t) - 1 \<and>
            tb_pad (mlm_dataset d) = pad_index (dictionary t) \<and>
            tb_eos (mlm_dataset d) = eos_index (dictionary t))"
    by blast
qed

theorem block_size_one_less_witness:
  "tokens_per_sample (args ex_task) = 128 \<and>
   (\<exists>d. load_lang ex_env ex_task ''train'' ''en'' = Inr d \<and>
      tb_block_size (mlm_dataset d) = 127) \<and>
   load_dataset ex_env ex_task ''train'' False = (Inr (), ex_task_loaded) \<and>
   (\<exists>m. dict_getitem (datasets ex_task_loaded) ''train'' = Inr m \<and>
      map (\<lambda>(lang, d). (lang, tb_block_size (mlm_dataset d), tb_pad (mlm_dataset d),
             tb_eos (mlm_dataset d))) (mc_datasets m) =
        [(''en'', 127, 0, 1), (''fr'', 127, 0, 1)])"
proof -
  have h: "load_dataset ex_env ex_task ''train'' False = (Inr (), ex_task_loaded)"
    using ex_load_train by (simp add: prod_eq_iff ex_task_loaded_def)
  have a: "tokens_per_sample (args ex_task) = 128" "pad_index (dictionary ex_task) = 0"
    "eos_index (dictionary ex_task) = 1"
    by (simp_all add: example_defs)
  have "''en'' \<in> set (dict_keys (langs2id ex_task))" by (simp add: ex_keys)
  moreover have "shard_exists ex_env ex_task ''train'' ''en''" by (simp add: example_defs)
  ultimately obtain d where d: "load_lang ex_env ex_task ''train'' ''en'' = Inr d"
    using load_lang_present by blast
  note b = block_size_one_less [of ex_env ex_task "''train''" "''en''" d False "()" ex_task_loaded]
  from b d have "tb_block_size (mlm_dataset d) = tokens_per_sample (args ex_task) - 1"
    by blast
  with d a have 1: "\<exists>d. load_lang ex_env ex_task ''train'' ''en'' = Inr d \<and>
      tb_block_size (mlm_dataset d) = 127" by simp
  from b h obtain m where m: "dict_getitem (datasets ex_task_loaded) ''train'' = Inr m"
    and p: "\<forall>(lang, d)\<in>set (mc_datasets m).
            tb_block_size (mlm_dataset d) = tokens_per_sample (args ex_task) - 1 \<and>
            tb_pad (mlm_dataset d) = pad_index (dictionary ex_task) \<and>
            tb_eos (mlm_dataset d) = eos_index (dictionary ex_task)"
    by blast
  from ex_loaded_registry m obtain d1 d2 where "mc_datasets m = [(''en'', d1), (''fr'', d2)]"
    by (auto simp: dict_getitem_def)
  with p a have "map (\<lambda>(lang, d). (lang, tb_block_size (mlm_dataset d), tb_pad (mlm_dataset d),
             tb_eos (mlm_dataset d))) (mc_datasets m) =
        [(''en'', 127, 0, 1), (''fr'', 127, 0, 1)]"
    by simp
  with m have 2: "\<exists>m. dict_getitem (datasets ex_task_loaded) ''train'' = Inr m \<and>
      map (\<lambda>(lang, d). (lang, tb_block_size (mlm_dataset d), tb_pad (mlm_dataset d),
             tb_eos (mlm_dataset d))) (mc_datasets m) =
        [(''en'', 127, 0, 1), (''fr'', 127, 0, 1)]"
    by (intro exI [of _ m] conjI)
  from a(1) 1 h 2 show ?thesis by (intro conjI)
qed

text \<open>
  C7. Whenever the loop body builds the dataset of a language, its segment id is the id
  the mapping gives that language; so it is for every dataset of the merged dataset that
  a returning load registers, whatever the split.
\<close>

theorem segment_id_is_language_id:
  "(load_lang e t split lang = Inr d \<longrightarrow>
      dict_getitem (langs2id t) lang = Inr (mlm_segment_id d)) \<and>
   (load_dataset e t split combine = (Inr u, t') \<longrightarrow>
      langs2id t' = langs2id t \<and>
      (\<exists>m. dict_getitem (datasets t') split = Inr m \<and>
         set (dict_keys (mc_datasets m)) = set (dict_keys (langs2id t)) \<and>
         (\<forall>(lang, d)\<in>set (mc_datasets m).
            dict_getitem (langs2id t) lang = Inr (mlm_segment_id d))))"
proof (rule conjI; rule impI)
  assume "load_lang e t split lang = Inr d"
  then show "dict_getitem (langs2id t) lang = Inr (mlm_segment_id d)"
    by (rule load_lang_Inr(5))
next
  assume r: "load_dataset e t split combine = (Inr u, t')"
  then have same: "langs2id t' = langs2id t"
    by (auto simp: load_dataset_unfold Let_def split: sum.splits if_splits)
  from load_dataset_registers [OF r] obtain m where
    m: "dict_getitem (datasets t') split = Inr m"
      "set (dict_keys (mc_datasets m)) = set (dict_keys (langs2id t))"
      "\<forall>(lang, d)\<in>set (mc_datasets m). load_lang e t split lang = Inr d"
    by blast
  from m(3) have "\<forall>(lang, d)\<in>set (mc_datasets m).
      dict_getitem (langs2id t) lang = Inr (mlm_segment_id d)"
    by (auto dest: load_lang_Inr(5))
  with m(1,2) same show "langs2id t' = langs2id t \<and>
      (\<exists>m. dict_getitem (datasets t') split = Inr m \<and>
         set (dict_keys (mc_datasets m)) = set (dict_keys (langs2id t)) \<and>
         (\<forall>(lang, d)\<in>set (mc_datasets m).
            dict_getitem (langs2id t) lang = Inr (mlm_segment_id d)))"
    by blast
qed

theorem segment_id_is_language_id_witness:
  "langs2id ex_task = [(''en'', 0), (''fr'', 1)] \<and>
   (\<exists>d. load_lang ex_env ex_task ''valid'' ''en'' = Inr d \<and> mlm_segment_id d = 0) \<and>
   load_dataset ex_env ex_task ''train'' False = (Inr (), ex_task_loaded) \<and>
   (\<exists>m. dict_getitem (datasets ex_task_loaded) ''train'' = Inr m \<and>
      map (\<lambda>(lang, d). (lang, mlm_segment_id d)) (mc_datasets m) =
        [(''en'', 0), (''fr'', 1)])"
proof -
  have h: "load_dataset ex_env ex_task ''train'' False = (Inr (), ex_task_loaded)"
    using ex_load_train by (simp add: prod_eq_iff ex_task_loaded_def)
  have l: "langs2id ex_task = [(''en'', 0), (''fr'', 1)]"
    by (simp add: example_defs)
  have "''en'' \<in> set (dict_keys (langs2id ex_task))" by (simp add: ex_keys)
  moreover have "shard_exists ex_env ex_task ''valid'' ''en''" by (simp add: example_defs)
  ultimately obtain d where d: "load_lang ex_env ex_task ''valid'' ''en'' = Inr d"
    using load_lang_present by blast
  from segment_id_is_language_id [of ex_env ex_task "''valid''" "''en''" d] d
  have "dict_getitem (langs2id ex_task) ''en'' = Inr (mlm_segment_id d)" by blast
  then have "mlm_segment_id d = 0" unfolding l by (simp add: dict_getitem_def)
  with d have 1: "\<exists>d. load_lang ex_env ex_task ''valid'' ''en'' = Inr d \<and> mlm_segment_id d = 0"
    by blast
  from segment_id_is_language_id [of ex_env ex_task "''train''" "''en''" d False "()"
      ex_task_loaded] h
  obtain m where m: "dict_getitem (datasets ex_task_loaded) ''train'' = Inr m"
    and p: "\<forall>(lang, d)\<in>set (mc_datasets m).
            dict_getitem (langs2id ex_task) lang = Inr (mlm_segment_id d)"
    by blast
  from ex_loaded_registry m obtain d1 d2 where "mc_datasets m = [(''en'', d1), (''fr'', d2)]"
    by (auto simp: dict_getitem_def)
  with p have "map (\<lambda>(lang, d). (lang, mlm_segment_id d)) (mc_datasets m) =
        [(''en'', 0), (''fr'', 1)]"
    unfolding l by (simp add: dict_getitem_def)
  with m have 2: "\<exists>m. dict_getitem (datasets ex_task_loaded) ''train'' = Inr m \<and>
      map (\<lambda>(lang, d). (lang, mlm_segment_id d)) (mc_datasets m) =
        [(''en'', 0), (''fr'', 1)]"
    by (intro exI [of _ m] conjI)
  from l 1 h 2 show ?thesis by (intro conjI)
qed

subsection \<open>The default key\<close>

lemma load_dataset_snd_fields:
  "langs2id (snd (load_dataset e t split combine)) = langs2id t"
  "args (snd (load_dataset e t split combine)) = args t"
  "default_key (snd (load_dataset e t split combine)) =
     (if default_key t = None \<and> dict_keys (langs2id t) \<noteq> []
      then Some (hd (dict_keys (langs2id t))) else default_key t)"
  by (simp_all add: load_dataset_unfold Let_def split: sum.splits)

lemma load_all_langs2id: "langs2id (load_all t calls) = langs2id t"
  by (induction t calls rule: load_all.induct) (simp_all add: load_dataset_snd_fields)

text \<open>Once set, the default key survives every later load, whether it returns or raises.\<close>

lemma load_all_default_key:
  "default_key t = Some k \<Longrightarrow> default_key (load_all t calls) = Some k"
  by (induction t calls rule: load_all.induct) (simp_all add: load_dataset_snd_fields)

lemma load_all_first_key:
  assumes "default_key t = None" and "dict_keys (langs2id t) \<noteq> []" and "calls \<noteq> []"
  shows "default_key (load_all t calls) = Some (hd (dict_keys (langs2id t)))"
proof -
  from assms(3) obtain e split combine rest where c: "calls = (e, split, combine) # rest"
    by (cases calls) auto
  from assms(1,2) have "default_key (snd (load_dataset e t split combine)) =
      Some (hd (dict_keys (langs2id t)))"
    by (simp add: load_dataset_snd_fields)
  from load_all_default_key [OF this] show ?thesis by (simp add: c)
qed

text \<open>
  The merged datasets in the registry carry the default key of the instance: a load
  stores the key that is current when it returns, and that key is never unset.
\<close>

lemma load_dataset_registry_keys:
  assumes "default_key t = None \<or> default_key t = Some k"
    and "dict_keys (langs2id t) \<noteq> []" and "hd (dict_keys (langs2id t)) = k"
    and "\<forall>(s, m)\<in>set (datasets t). mc_default_key m = Some k"
  shows "\<forall>(s, m)\<in>set (datasets (snd (load_dataset e t split combine))).
           mc_default_key m = Some k"
proof (cases "fst (load_langs e split (dict_keys (langs2id t)) [] t)")
  case (Inl err)
  with assms(4) show ?thesis by (simp add: load_dataset_unfold Let_def)
next
  case (Inr dm)
  let ?m = "\<lparr> mc_datasets = dm, mc_default_key = Some k \<rparr>"
  from Inr assms(1-3)
  have d: "datasets (snd (load_dataset e t split combine)) = dict_setitem (datasets t) split ?m"
    by (auto simp: load_dataset_unfold Let_def)
  have "set (dict_setitem (datasets t) split ?m) \<subseteq> insert (split, ?m) (set (datasets t))"
    by (rule set_dict_setitem)
  with assms(4) show ?thesis unfolding d by auto
qed

lemma load_all_registry_keys:
  assumes "default_key t = None \<or> default_key t = Some k"
    and "dict_keys (langs2id t) \<noteq> []" and "hd (dict_keys (langs2id t)) = k"
    and "\<forall>(s, m)\<in>set (datasets t). mc_default_key m = Some k"
  shows "\<forall>(s, m)\<in>set (datasets (load_all t calls)). mc_default_key m = Some k"
  using assms
proof (induction t calls rule: load_all.induct)
  case (1 t)
  then show ?case by simp
next
  case (2 t e split combine calls)
  let ?t = "snd (load_dataset e t split combine)"
  from "2.prems"(1-3) have a: "default_key ?t = None \<or> default_key ?t = Some k"
    by (auto simp: load_dataset_snd_fields)
  from "2.prems"(2,3) have b: "dict_keys (langs2id ?t) \<noteq> []" "hd (dict_keys (langs2id ?t)) = k"
    by (simp_all add: load_dataset_snd_fields)
  from load_dataset_registry_keys [OF "2.prems"]
  have c: "\<forall>(s, m)\<in>set (datasets ?t). mc_default_key m = Some k" .
  from "2.IH" [OF a b c] show ?case by simp
qed

text \<open>
  C5. On an instance built by the constructor, after one or more loads (of any splits,
  under any file systems, returning or raising) the default key is the first language
  of the mapping, which is the first stripped piece of the language argument; it is the
  default key of every merged dataset in the registry; and a default key that is set is
  the same after any further loads.
\<close>

theorem default_key_is_first_language:
  "(calls \<noteq> [] \<longrightarrow>
      default_key (load_all (init a d) calls) =
        Some (hd (dict_keys (langs2id (init a d))))) \<and>
   (\<forall>(split, m)\<in>set (datasets (load_all (init a d) calls)).
      mc_default_key m = Some (hd (dict_keys (langs2id (init a d))))) \<and>
   hd (dict_keys (langs2id (init a d))) = str_strip (hd (str_split (monolingual_langs a) CHR '','')) \<and>
   (\<forall>k more. default_key (load_all (init a d) calls) = Some k \<longrightarrow>
      default_key (load_all (load_all (init a d) calls) more) = Some k)"
proof -
  let ?t = "init a d"
  have l: "langs2id ?t = lang_to_id (monolingual_langs a)" by (simp add: init_def)
  have n: "default_key ?t = None" and r: "datasets ?t = []" by (simp_all add: init_def)
  from lang_to_id_hd [of "monolingual_langs a"]
  have ne: "dict_keys (langs2id ?t) \<noteq> []"
    and hd: "hd (dict_keys (langs2id ?t)) = str_strip (hd (str_split (monolingual_langs a) CHR '',''))"
    by (simp_all add: l)
  have 1: "calls \<noteq> [] \<longrightarrow>
      default_key (load_all ?t calls) = Some (hd (dict_keys (langs2id ?t)))"
    using load_all_first_key [OF n ne] by blast
  have "\<forall>(s, m)\<in>set (datasets ?t). mc_default_key m = Some (hd (dict_keys (langs2id ?t)))"
    by (simp add: r)
  with n ne
  have 2: "\<forall>(s, m)\<in>set (datasets (load_all ?t calls)).
      mc_default_key m = Some (hd (dict_keys (langs2id ?t)))"
    by (intro load_all_registry_keys) simp_all
  have 3: "\<forall>k more. default_key (load_all ?t calls) = Some k \<longrightarrow>
      default_key (load_all (load_all ?t calls) more) = Some k"
    by (simp add: load_all_default_key)
  from 1 2 hd 3 show ?thesis by blast
qed

theorem default_key_is_first_language_witness:
  "default_key (load_all (init ex_args ex_dictionary)
      [(ex_env_gone, ''train'', False), (ex_env, ''train'', False)]) = Some ''en'' \<and>
   str_strip (hd (str_split (monolingual_langs ex_args) CHR '','')) = ''en'' \<and>
   map (\<lambda>(split, m). (split, mc_default_key m))
     (datasets (load_all (init ex_args ex_dictionary)
        [(ex_env_gone, ''train'', False), (ex_env, ''train'', False)])) =
     [(''train'', Some ''en'')] \<and>
   default_key (load_all (load_all (init ex_args ex_dictionary)
      [(ex_env_gone, ''train'', False), (ex_env, ''train'', False)])
      [(ex_env, ''valid'', False)]) = Some ''en''"
proof -
  let ?calls = "[(ex_env_gone, ''train'', False), (ex_env, ''train'', False)]"
  let ?t = "load_all (init ex_args ex_dictionary) ?calls"
  have k: "hd (dict_keys (langs2id (init ex_args ex_dictionary))) = ''en''"
    using ex_keys by (simp add: ex_task_def)
  have s: "str_strip (hd (str_split (monolingual_langs ex_args) CHR '','')) = ''en''"
    by (simp add: example_defs)
  note t = default_key_is_first_language [of ?calls ex_args ex_dictionary]
  have c: "?calls \<noteq> []" by simp
  from t c have 1: "default_key ?t = Some ''en''"
    unfolding k by blast
  from t have 2: "\<forall>(split, m)\<in>set (datasets ?t). mc_default_key m = Some ''en''"
    unfolding k by blast
  have "map fst (datasets ?t) = [''train'']"
    by (simp add: example_defs)
  then obtain m where m: "datasets ?t = [(''train'', m)]"
    by (cases "datasets ?t") auto
  with 2 have 3: "map (\<lambda>(split, m). (split, mc_default_key m)) (datasets ?t) =
      [(''train'', Some ''en'')]"
    by simp
  from t 1 have 4: "default_key (load_all ?t [(ex_env, ''valid'', False)]) = Some ''en''"
    by blast
  from 1 3 4 s show ?thesis by blast
qed

text \<open>
  C9. When the default key is unset and a load raises, the instance it leaves behind has
  the first language of the mapping as its default key, and keeps it through every
  later load.
\<close>

theorem failed_load_sets_default_key:
  assumes "default_key t = None" and "load_dataset e t split combine = (Inl err, t')"
  shows "dict_keys (langs2id t) \<noteq> [] \<and>
         default_key t' = Some (hd (dict_keys (langs2id t))) \<and>
         datasets t' = datasets t \<and>
         (\<forall>calls. default_key (load_all t' calls) = Some (hd (dict_keys (langs2id t))))"
proof -
  from load_dataset_Inl(1) [OF assms(2)]
  have "fst (load_langs e split (dict_keys (langs2id t)) [] t) = Inl err" .
  from load_langs_Inl [OF subset_refl this] have ne: "dict_keys (langs2id t) \<noteq> []" by auto
  with load_dataset_Inl(2) [OF assms(2)] assms(1)
  have t': "t' = t\<lparr>default_key := Some (hd (dict_keys (langs2id t)))\<rparr>" by simp
  then have k: "default_key t' = Some (hd (dict_keys (langs2id t)))" by simp
  from t' have "datasets t' = datasets t" by simp
  with ne k load_all_default_key [OF k] show ?thesis by simp
qed

theorem failed_load_sets_default_key_witness:
  "default_key ex_task = None \<and>
   fst (load_dataset ex_env_gone ex_task ''train'' False) =
     Inl (FileNotFoundError ''Dataset not found: train.en (data)'') \<and>
   default_key (snd (load_dataset ex_env_gone ex_task ''train'' False)) = Some ''en'' \<and>
   default_key (load_all (snd (load_dataset ex_env_gone ex_task ''train'' False))
      [(ex_env, ''train'', False)]) = Some ''en''"
proof -
  let ?r = "load_dataset ex_env_gone ex_task ''train'' False"
  have n: "default_key ex_task = None" by (simp add: ex_task_def init_def)
  have f: "fst ?r = Inl (FileNotFoundError ''Dataset not found: train.en (data)'')"
    by (simp add: example_defs)
  then have h: "?r = (Inl (FileNotFoundError ''Dataset not found: train.en (data)''), snd ?r)"
    by (simp add: prod_eq_iff)
  from failed_load_sets_default_key [OF n h] ex_keys
  have "default_key (snd ?r) = Some ''en''"
    and "\<forall>calls. default_key (load_all (snd ?r) calls) = Some ''en''"
    by simp_all
  with n f show ?thesis by blast
qed

subsection \<open>Loading a split again\<close>





subsection \<open>A configuration without the shuffle attribute\<close>

lemma load_lang_shuffle_absent:
  "load_lang e (t\<lparr>args := (args t)\<lparr>shuffle := None\<rparr>\<rparr>) split lang =
   load_lang e (t\<lparr>args := (args t)\<lparr>shuffle := Some False\<rparr>\<rparr>) split lang"
  unfolding load_lang_def resolve_shard_def shard_path_def not_found_def Let_def
  by (simp cong: sum.case_cong)

lemma fst_load_langs_shuffle_absent:
  "fst (load_langs e split ls dm (t\<lparr>args := (args t)\<lparr>shuffle := None\<rparr>\<rparr>)) =
   fst (load_langs e split ls dm (t\<lparr>args := (args t)\<lparr>shuffle := Some False\<rparr>\<rparr>))"
proof (induction ls arbitrary: dm)
  case Nil
  show ?case by (simp add: fst_load_langs_Nil)
next
  case (Cons l ls)
  then show ?case
    by (simp add: fst_load_langs_Cons load_lang_shuffle_absent split: sum.splits)
qed

text \<open>
  C10. With the \<^verbatim>\<open>shuffle\<close> attribute absent from the configuration, a load does what
  it does with \<^verbatim>\<open>shuffle\<close> false: the same outcome (the same normal return or the same
  error, and no error for the missing attribute) and the same instance, registry and
  printed lines, the configuration kept as it was given.
\<close>

theorem shuffle_absent_is_false:
  "load_dataset e (t\<lparr>args := (args t)\<lparr>shuffle := None\<rparr>\<rparr>) split combine =
     (case load_dataset e (t\<lparr>args := (args t)\<lparr>shuffle := Some False\<rparr>\<rparr>) split combine of
        (r, t') \<Rightarrow> (r, t'\<lparr>args := (args t')\<lparr>shuffle := None\<rparr>\<rparr>))"
proof -
  let ?N = "t\<lparr>args := (args t)\<lparr>shuffle := None\<rparr>\<rparr>"
  let ?F = "t\<lparr>args := (args t)\<lparr>shuffle := Some False\<rparr>\<rparr>"
  let ?keys = "dict_keys (langs2id t)"
  have f: "fst (load_langs e split ?keys [] ?N) = fst (load_langs e split ?keys [] ?F)"
    by (rule fst_load_langs_shuffle_absent)
  show ?thesis
  proof (cases "fst (load_langs e split ?keys [] ?F)")
    case (Inl err)
    with f show ?thesis by (simp add: load_dataset_unfold Let_def)
  next
    case (Inr dm)
    with f show ?thesis by (simp add: load_dataset_unfold Let_def)
  qed
qed

theorem shuffle_absent_is_false_witness:
  "shuffle (args ex_task) = None \<and>
   fst (load_dataset ex_env ex_task ''train'' False) = Inr () \<and>
   load_dataset ex_env ex_task ''train'' False =
     (case load_dataset ex_env (ex_task\<lparr>args := (args ex_task)\<lparr>shuffle := Some False\<rparr>\<rparr>)
             ''train'' False of
        (r, t') \<Rightarrow> (r, t'\<lparr>args := (args t')\<lparr>shuffle := None\<rparr>\<rparr>))"
proof -
  have n: "shuffle (args ex_task) = None"
    by (simp add: ex_task_def init_def ex_args_def)
  then have e: "ex_task\<lparr>args := (args ex_task)\<lparr>shuffle := None\<rparr>\<rparr> = ex_task" by simp
  from shuffle_absent_is_false [of ex_env ex_task "''train''" False]
  have "load_dataset ex_env ex_task ''train'' False =
     (case load_dataset ex_env (ex_task\<lparr>args := (args ex_task)\<lparr>shuffle := Some False\<rparr>\<rparr>)
             ''train'' False of
        (r, t') \<Rightarrow> (r, t'\<lparr>args := (args t')\<lparr>shuffle := None\<rparr>\<rparr>))"
    unfolding e .
  with n ex_load_train show ?thesis by blast
qed

end
